theory Spec2Isabelle
  imports Complex_Main "HOL-Library.Word"
begin

section \<open>The digest provider: \<^verbatim>\<open>src/lib/crypto/index.ts\<close>\<close>

text \<open>
  \<^verbatim>\<open>SupportedAlgorithm\<close> and \<^verbatim>\<open>SupportedOutputFormat\<close> are unions of string literals,
  that is, enumerations.
\<close>

datatype SupportedAlgorithm = SHA1 | SHA256 | SHA384 | SHA512

datatype SupportedOutputFormat = Hex | Base64

text \<open>
  The exceptions the engine can raise: \<open>InvalidInput\<close> is the
  \<^verbatim>\<open>Error("Missing required parameters.")\<close> of \<^verbatim>\<open>hash\<close>; \<open>TypeError\<close> is what
  JavaScript throws on reading a property of \<^verbatim>\<open>undefined\<close>; \<open>RangeError\<close> is what
  \<^verbatim>\<open>String.prototype.repeat\<close> throws on a negative count.
\<close>

datatype error = InvalidInput | TypeError | RangeError

type_synonym byte = "8 word"

text \<open>
  The digest itself is the platform's: \<^verbatim>\<open>window.crypto.subtle.digest(algorithm,
  new TextEncoder().encode(data))\<close>. It is not code of this repository and is a parameter
  of the model, from the algorithm and the text to the bytes of the digest.
\<close>

type_synonym platform = "SupportedAlgorithm \<Rightarrow> string \<Rightarrow> byte list"

text \<open>\<^verbatim>\<open>b.toString(16).padStart(2, "0")\<close> on a byte, joined over the digest.\<close>

definition hexDigit :: "nat \<Rightarrow> char" where
  "hexDigit n = ''0123456789abcdef'' ! n"

definition toString16 :: "byte \<Rightarrow> string" where
  "toString16 b =
     (if unat b < 16 then [hexDigit (unat b)]
      else [hexDigit (unat b div 16), hexDigit (unat b mod 16)])"

definition padStart :: "string \<Rightarrow> nat \<Rightarrow> char \<Rightarrow> string" where
  "padStart s n c = replicate (n - length s) c @ s"

definition toHex :: "byte list \<Rightarrow> string" where
  "toHex bytes = concat (map (\<lambda>b. padStart (toString16 b) 2 (CHR ''0'')) bytes)"

text \<open>\<^verbatim>\<open>window.btoa(String.fromCharCode(...bytes))\<close>: base64 with padding.\<close>

definition b64Digit :: "nat \<Rightarrow> char" where
  "b64Digit n =
     ''ABCDEFGHIJKLMNOPQRSTUVWXYZabcdefghijklmnopqrstuvwxyz0123456789+/'' ! n"

fun btoa :: "byte list \<Rightarrow> string" where
  "btoa [] = []"
| "btoa [a] =
     [b64Digit (unat a div 4), b64Digit (unat a mod 4 * 16), CHR ''='', CHR ''='']"
| "btoa [a, b] =
     [b64Digit (unat a div 4), b64Digit (unat a mod 4 * 16 + unat b div 16),
      b64Digit (unat b mod 16 * 4), CHR ''='']"
| "btoa (a # b # c # bytes) =
     [b64Digit (unat a div 4), b64Digit (unat a mod 4 * 16 + unat b div 16),
      b64Digit (unat b mod 16 * 4 + unat c div 64), b64Digit (unat c mod 64)] @ btoa bytes"

text \<open>
  \<^verbatim>\<open>hash(algorithm, data, format = "hex")\<close>. The guard \<^verbatim>\<open>!algorithm || !data\<close> tests
  the values at run time, whatever the declared types say: \<open>None\<close> stands for a missing
  argument (\<^verbatim>\<open>undefined\<close>, \<^verbatim>\<open>null\<close> and, for the algorithm, the empty string, which is
  no member of \<^verbatim>\<open>SupportedAlgorithm\<close>); for the data the empty string is falsy too.
  The warning printed for SHA-1 changes no result and is left out. The source calls the
  function \<^verbatim>\<open>hash\<close>; here that name is the field of a block.
\<close>

definition hash_crypto ::
  "platform \<Rightarrow> SupportedAlgorithm option \<Rightarrow> string option \<Rightarrow> SupportedOutputFormat
     \<Rightarrow> error + string" where
  "hash_crypto subtle algorithm data format =
     (case algorithm of
        None \<Rightarrow> Inl InvalidInput
      | Some a \<Rightarrow>
          (case data of
             None \<Rightarrow> Inl InvalidInput
           | Some d \<Rightarrow>
               if d = [] then Inl InvalidInput
               else
                 let h = subtle a d
                 in if format = Hex then Inr (toHex h) else Inr (btoa h)))"

section \<open>The blockchain engine: the data model\<close>

text \<open>
  \<^verbatim>\<open>interface IBlock\<close>. Numbers are modelled as integers (the engine only ever adds
  integers, far below the range where a double stops being exact); \<open>duration\<close> is a
  span of time in milliseconds. \<open>hash\<close> is declared optional. \<open>previousHash\<close> is
  declared a string, but \<^verbatim>\<open>addBlock\<close> fills it with \<^verbatim>\<open>previousBlock.hash!\<close>, and a
  non-null assertion checks nothing at run time: the field holds \<^verbatim>\<open>undefined\<close>
  (\<open>None\<close>) when the last block has no hash.
\<close>

record IBlock =
  index :: int
  timestamp :: int
  transaction :: string
  previousHash :: "string option"
  hash :: "string option"
  nonce :: int
  duration :: real

text \<open>\<^verbatim>\<open>String(n)\<close> for an integer \<open>n\<close>: its decimal digits, with a sign.\<close>

fun digits :: "nat \<Rightarrow> string" where
  "digits n =
     (if n < 10 then [''0123456789'' ! n]
      else digits (n div 10) @ [''0123456789'' ! (n mod 10)])"

declare digits.simps [simp del]

definition String_of :: "int \<Rightarrow> string" where
  "String_of n = (if n < 0 then CHR ''-'' # digits (nat (- n)) else digits (nat n))"

text \<open>A string operand of \<^verbatim>\<open>+\<close>: \<^verbatim>\<open>undefined\<close> is spelled out.\<close>

definition str :: "string option \<Rightarrow> string" where
  "str v = (case v of None \<Rightarrow> ''undefined'' | Some s \<Rightarrow> s)"

text \<open>
  The text that is hashed, \<^verbatim>\<open>String(index + timestamp + transaction + previousHash +
  nonce)\<close>. \<^verbatim>\<open>+\<close> associates to the left and both \<^verbatim>\<open>index\<close> and \<^verbatim>\<open>timestamp\<close> are
  numbers, so the first \<^verbatim>\<open>+\<close> is an addition; from \<^verbatim>\<open>transaction\<close> on, every \<^verbatim>\<open>+\<close>
  has a string on its left and concatenates. \<^verbatim>\<open>createBlock\<close> and \<^verbatim>\<open>validateChain\<close>
  write the same expression.
\<close>

definition content :: "int \<Rightarrow> int \<Rightarrow> string \<Rightarrow> string option \<Rightarrow> int \<Rightarrow> string" where
  "content idx ts tx prev n = String_of (idx + ts) @ tx @ str prev @ String_of n"

section \<open>The blockchain engine: the operations\<close>

text \<open>
  \<^verbatim>\<open>createBlock(algorithm, index, timestamp, transaction, previousHash, nonce = 0)\<close>:
  the object literal without a hash, then the assignment of the hash. An exception of
  \<^verbatim>\<open>hash\<close> passes through. A missing \<open>nonce\<close> argument (\<open>None\<close>) takes the default.
\<close>

definition createBlock ::
  "platform \<Rightarrow> SupportedAlgorithm \<Rightarrow> int \<Rightarrow> int \<Rightarrow> string \<Rightarrow> string option \<Rightarrow> int option
     \<Rightarrow> error + IBlock" where
  "createBlock subtle algorithm idx ts tx prev nonce_arg =
     (let n = (case nonce_arg of None \<Rightarrow> 0 | Some v \<Rightarrow> v);
          block = \<lparr>index = idx, timestamp = ts, transaction = tx, previousHash = prev,
                   hash = None, nonce = n, duration = 0\<rparr>
      in case hash_crypto subtle (Some algorithm) (Some (content idx ts tx prev n)) Hex of
           Inl e \<Rightarrow> Inl e
         | Inr h \<Rightarrow> Inr (block\<lparr>hash := Some h\<rparr>))"

text \<open>\<^verbatim>\<open>"0".repeat(count)\<close> and \<^verbatim>\<open>s.startsWith(t)\<close>.\<close>

definition repeat :: "string \<Rightarrow> int \<Rightarrow> error + string" where
  "repeat s count = (if count < 0 then Inl RangeError else Inr (concat (replicate (nat count) s)))"

definition startsWith :: "string \<Rightarrow> string \<Rightarrow> bool" where
  "startsWith s t = (take (length t) s = t)"

text \<open>
  \<^verbatim>\<open>mineBlock(block, algorithm, difficulty)\<close>. The source recurses with no bound on the
  number of attempts, so the model is a partial function: \<open>None\<close> is a search that never
  returns. A result is the rejection or the block of the promise, paired with the number
  of digests the search has computed (one for each call of \<^verbatim>\<open>createBlock\<close>); the count
  is bookkeeping of the model, the block is what the source returns.
  \<^verbatim>\<open>block.hash!.startsWith\<close> on a block without a hash throws a \<open>TypeError\<close>.
\<close>

partial_function (option) mineBlock ::
  "platform \<Rightarrow> IBlock \<Rightarrow> SupportedAlgorithm \<Rightarrow> int \<Rightarrow> ((error + IBlock) \<times> nat) option" where
  "mineBlock subtle block algorithm difficulty =
     (case repeat ''0'' difficulty of
        Inl e \<Rightarrow> Some (Inl e, 0)
      | Inr target \<Rightarrow>
          (case hash block of
             None \<Rightarrow> Some (Inl TypeError, 0)
           | Some h \<Rightarrow>
               if startsWith h target then Some (Inr block, 0)
               else
                 (case createBlock subtle algorithm (index block) (timestamp block)
                         (transaction block) (previousHash block) (Some (nonce block + 1)) of
                    Inl e \<Rightarrow> Some (Inl e, 1)
                  | Inr newBlock \<Rightarrow>
                      Option.bind (mineBlock subtle newBlock algorithm difficulty)
                        (\<lambda>r. Some (fst r, Suc (snd r))))))"

declare mineBlock.simps [code]

text \<open>
  \<^verbatim>\<open>createGenesisBlock(algorithm, difficulty)\<close>. The clock is the caller's world:
  \<open>now\<close> is what \<^verbatim>\<open>Date.now()\<close> returns and \<open>elapsed\<close> is
  \<^verbatim>\<open>performance.now() - start\<close>. The template carries the empty string as its hash.
\<close>

definition createGenesisBlock ::
  "platform \<Rightarrow> SupportedAlgorithm \<Rightarrow> int \<Rightarrow> int \<Rightarrow> real \<Rightarrow> ((error + IBlock) \<times> nat) option" where
  "createGenesisBlock subtle algorithm difficulty now elapsed =
     (let template = \<lparr>index = 0, timestamp = now, transaction = ''Genesis Block'',
                      previousHash = Some ''0'', hash = Some [], nonce = 0, duration = 0\<rparr>
      in case mineBlock subtle template algorithm difficulty of
           None \<Rightarrow> None
         | Some (Inl e, calls) \<Rightarrow> Some (Inl e, calls)
         | Some (Inr block, calls) \<Rightarrow> Some (Inr (block\<lparr>duration := elapsed\<rparr>), calls))"

text \<open>
  \<^verbatim>\<open>addBlock(chain, transaction, algorithm, difficulty)\<close>, with \<open>now\<close> for
  \<^verbatim>\<open>DateTime.utc().toMillis()\<close> and \<open>elapsed\<close> as above. On an empty array
  \<^verbatim>\<open>chain[chain.length - 1]\<close> is \<^verbatim>\<open>undefined\<close> and the next line, which reads its
  \<^verbatim>\<open>index\<close>, throws before anything else happens. The result is a new array,
  \<^verbatim>\<open>[...chain, block]\<close>.
\<close>

definition addBlock ::
  "platform \<Rightarrow> IBlock list \<Rightarrow> string \<Rightarrow> SupportedAlgorithm \<Rightarrow> int \<Rightarrow> int \<Rightarrow> real
     \<Rightarrow> ((error + IBlock list) \<times> nat) option" where
  "addBlock subtle chain tx algorithm difficulty now elapsed =
     (if chain = [] then Some (Inl TypeError, 0)
      else
        let previousBlock = chain ! (length chain - 1);
            newIndex = index previousBlock + 1
        in case createBlock subtle algorithm newIndex now tx (hash previousBlock) None of
             Inl e \<Rightarrow> Some (Inl e, 1)
           | Inr templateBlock \<Rightarrow>
               (case mineBlock subtle templateBlock algorithm difficulty of
                  None \<Rightarrow> None
                | Some (Inl e, calls) \<Rightarrow> Some (Inl e, Suc calls)
                | Some (Inr minedBlock, calls) \<Rightarrow>
                    Some (Inr (chain @ [minedBlock\<lparr>duration := elapsed\<rparr>]), Suc calls)))"

text \<open>
  \<^verbatim>\<open>validateChain(algorithm, chain)\<close>. An entry of the report, then the \<^verbatim>\<open>for\<close> loop
  with its variables \<open>i\<close>, \<open>isBroken\<close> and \<open>report\<close>, and the number of digests computed
  so far.
\<close>

record entry =
  blockId :: int
  ok :: bool

function validateLoop ::
  "platform \<Rightarrow> SupportedAlgorithm \<Rightarrow> IBlock list \<Rightarrow> nat \<Rightarrow> bool \<Rightarrow> entry list \<Rightarrow> nat
     \<Rightarrow> (error + entry list) \<times> nat" where
  "validateLoop subtle algorithm chain i isBroken report calls =
     (if i < length chain then
        let currentBlock = chain ! i;
            previousBlock = chain ! (i - 1)
        in if isBroken then
             validateLoop subtle algorithm chain (i + 1) isBroken
               (report @ [\<lparr>blockId = index currentBlock, ok = False\<rparr>]) calls
           else
             (case hash_crypto subtle (Some algorithm)
                     (Some (content (index currentBlock) (timestamp currentBlock)
                              (transaction currentBlock) (previousHash currentBlock)
                              (nonce currentBlock))) Hex of
                Inl e \<Rightarrow> (Inl e, calls + 1)
              | Inr computed \<Rightarrow>
                  if hash currentBlock \<noteq> Some computed then
                    validateLoop subtle algorithm chain (i + 1) True
                      (report @ [\<lparr>blockId = index currentBlock, ok = False\<rparr>]) (calls + 1)
                  else if previousHash currentBlock \<noteq> hash previousBlock then
                    validateLoop subtle algorithm chain (i + 1) True
                      (report @ [\<lparr>blockId = index currentBlock, ok = False\<rparr>]) (calls + 1)
                  else
                    validateLoop subtle algorithm chain (i + 1) isBroken
                      (report @ [\<lparr>blockId = index currentBlock, ok = True\<rparr>]) (calls + 1))
      else (Inr report, calls))"
  by pat_completeness auto
termination
  by (relation "measure (\<lambda>(subtle, algorithm, chain, i, isBroken, report, calls). length chain - i)")
    auto

declare validateLoop.simps [simp del]

definition validateChain ::
  "platform \<Rightarrow> SupportedAlgorithm \<Rightarrow> IBlock list \<Rightarrow> (error + entry list) \<times> nat" where
  "validateChain subtle algorithm chain =
     (if length chain = 0 then (Inr [], 0)
      else validateLoop subtle algorithm chain 1 False
             [\<lparr>blockId = index (chain ! 0), ok = True\<rparr>] 0)"

section \<open>Notions the properties are stated with\<close>

text \<open>
  The text the specification says is hashed: the decimal forms of the five fields, one
  after the other. It is written from the specification's words, to be compared with
  \<open>content\<close>, which is written from the source.
\<close>

definition spec_content :: "int \<Rightarrow> int \<Rightarrow> string \<Rightarrow> string option \<Rightarrow> int \<Rightarrow> string" where
  "spec_content idx ts tx prev n = String_of idx @ String_of ts @ tx @ str prev @ String_of n"

text \<open>The digest \<^verbatim>\<open>validateChain\<close> recomputes for a block, and its two checks at position \<open>i\<close>.\<close>

definition digestOf :: "platform \<Rightarrow> SupportedAlgorithm \<Rightarrow> IBlock \<Rightarrow> string" where
  "digestOf subtle algorithm b =
     toHex (subtle algorithm
       (content (index b) (timestamp b) (transaction b) (previousHash b) (nonce b)))"

definition hashIntact :: "platform \<Rightarrow> SupportedAlgorithm \<Rightarrow> IBlock list \<Rightarrow> nat \<Rightarrow> bool" where
  "hashIntact subtle algorithm chain i =
     (hash (chain ! i) = Some (digestOf subtle algorithm (chain ! i)))"

definition linked :: "IBlock list \<Rightarrow> nat \<Rightarrow> bool" where
  "linked chain i = (previousHash (chain ! i) = hash (chain ! (i - 1)))"

definition passes :: "platform \<Rightarrow> SupportedAlgorithm \<Rightarrow> IBlock list \<Rightarrow> nat \<Rightarrow> bool" where
  "passes subtle algorithm chain i = (hashIntact subtle algorithm chain i \<and> linked chain i)"

text \<open>
  What the report says about position \<open>j\<close>, in closed form: the block is reported sound
  when every position from 1 to \<open>j\<close> passes both checks. A digest is computed for
  position \<open>j\<close> when every position before it passes.
\<close>

definition verdict :: "platform \<Rightarrow> SupportedAlgorithm \<Rightarrow> IBlock list \<Rightarrow> nat \<Rightarrow> entry" where
  "verdict subtle algorithm chain j =
     \<lparr>blockId = index (chain ! j), ok = list_all (passes subtle algorithm chain) [1..<Suc j]\<rparr>"

definition digested :: "platform \<Rightarrow> SupportedAlgorithm \<Rightarrow> IBlock list \<Rightarrow> nat \<Rightarrow> bool" where
  "digested subtle algorithm chain j = list_all (passes subtle algorithm chain) [1..<j]"

text \<open>
  The blocks a search builds. Candidate 0 is the block \<^verbatim>\<open>mineBlock\<close> is called with;
  each further candidate is built from the one before it by the call of \<^verbatim>\<open>createBlock\<close>
  in \<^verbatim>\<open>mineBlock\<close>. \<open>meets\<close> is the test \<^verbatim>\<open>block.hash!.startsWith(target)\<close> on the
  hash a block carries, and \<open>hit\<close> says that candidate \<open>k\<close> passes it.
\<close>

fun candidate :: "platform \<Rightarrow> SupportedAlgorithm \<Rightarrow> IBlock \<Rightarrow> nat \<Rightarrow> error + IBlock" where
  "candidate subtle algorithm block 0 = Inr block"
| "candidate subtle algorithm block (Suc k) =
     (case candidate subtle algorithm block k of
        Inl e \<Rightarrow> Inl e
      | Inr c \<Rightarrow>
          createBlock subtle algorithm (index c) (timestamp c) (transaction c)
            (previousHash c) (Some (nonce c + 1)))"

definition meets :: "int \<Rightarrow> IBlock \<Rightarrow> bool" where
  "meets difficulty b =
     (case hash b of
        None \<Rightarrow> False
      | Some h \<Rightarrow> startsWith h (replicate (nat difficulty) (CHR ''0'')))"

definition hit :: "platform \<Rightarrow> SupportedAlgorithm \<Rightarrow> int \<Rightarrow> IBlock \<Rightarrow> nat \<Rightarrow> bool" where
  "hit subtle algorithm difficulty block k =
     (case candidate subtle algorithm block k of
        Inl e \<Rightarrow> False
      | Inr c \<Rightarrow> meets difficulty c)"

text \<open>
  JavaScript passes an array by reference. To say that \<^verbatim>\<open>addBlock\<close> leaves the array it
  is given as it was, the arrays live in a store, addressed by their position in it:
  \<^verbatim>\<open>addBlock\<close> reads its argument there, and its result, the array literal
  \<^verbatim>\<open>[...chain, block]\<close>, is a new array at a new address.
\<close>

type_synonym ref = nat

type_synonym store = "IBlock list list"

definition addBlock_ref ::
  "platform \<Rightarrow> store \<Rightarrow> ref \<Rightarrow> string \<Rightarrow> SupportedAlgorithm \<Rightarrow> int \<Rightarrow> int \<Rightarrow> real
     \<Rightarrow> (((error + ref) \<times> nat) \<times> store) option" where
  "addBlock_ref subtle s chain tx algorithm difficulty now elapsed =
     (case addBlock subtle (s ! chain) tx algorithm difficulty now elapsed of
        None \<Rightarrow> None
      | Some (Inl e, calls) \<Rightarrow> Some ((Inl e, calls), s)
      | Some (Inr newChain, calls) \<Rightarrow> Some ((Inr (length s), calls), s @ [newChain]))"

section \<open>A platform to run the model on\<close>

text \<open>
  To evaluate the engine on concrete inputs the platform's digest needs a stand-in: a
  checksum of the text in the first byte, varied with the length of the text over as
  many bytes as the digest of the algorithm it stands for has (20, 32, 48 and 64). No
  general statement below depends on it.
\<close>

definition checksum :: "string \<Rightarrow> byte" where
  "checksum s = of_nat (sum_list (map of_char s))"

definition width :: "SupportedAlgorithm \<Rightarrow> nat" where
  "width a = (case a of SHA1 \<Rightarrow> 20 | SHA256 \<Rightarrow> 32 | SHA384 \<Rightarrow> 48 | SHA512 \<Rightarrow> 64)"

definition checksumPlatform :: platform where
  "checksumPlatform a s = map (\<lambda>i. checksum s + of_nat (i * length s)) [0..<width a]"

text \<open>
  A small chain over that platform, sound at difficulty 1: a genesis block, two blocks
  linked to it, and the unmined template that \<^verbatim>\<open>addBlock\<close> searches the first of them
  from.
\<close>

definition genesis1 :: IBlock where
  "genesis1 = \<lparr>index = 0, timestamp = 1000, transaction = ''Genesis Block'',
      previousHash = Some ''0'', hash = Some ''001326394c5f728598abbed1e4f70a1d30435669'',
      nonce = 6, duration = 5\<rparr>"

definition template1 :: IBlock where
  "template1 = \<lparr>index = 1, timestamp = 2000, transaction = ''carol pays eve 49'',
      previousHash = Some ''001326394c5f728598abbed1e4f70a1d30435669'',
      hash = Some ''fe3c7ab8f63472b0ee2c6aa8e62462a0de1c5a98'', nonce = 0, duration = 0\<rparr>"

definition block1 :: IBlock where
  "block1 = \<lparr>index = 1, timestamp = 2000, transaction = ''carol pays eve 49'',
      previousHash = Some ''001326394c5f728598abbed1e4f70a1d30435669'',
      hash = Some ''003e7cbaf83674b2f02e6caae82664a2e01e5c9a'', nonce = 2, duration = 7\<rparr>"

definition block2 :: IBlock where
  "block2 = \<lparr>index = 2, timestamp = 3000, transaction = ''bob pays eve 8'',
      previousHash = Some ''003e7cbaf83674b2f02e6caae82664a2e01e5c9a'',
      hash = Some ''003b76b1ec27629dd8134e89c4ff3a75b0eb2661'', nonce = 1, duration = 4\<rparr>"

text \<open>The template again, with a hash that somebody wrote into it by hand.\<close>

definition staleBlock :: IBlock where
  "staleBlock = \<lparr>index = 1, timestamp = 2000, transaction = ''carol pays eve 49'',
      previousHash = Some ''001326394c5f728598abbed1e4f70a1d30435669'',
      hash = Some ''00c0ffee'', nonce = 0, duration = 0\<rparr>"

section \<open>The digest provider and the block factory\<close>

lemma digits_not_empty: "digits n \<noteq> []"
  by (subst digits.simps) simp

lemma String_of_not_empty: "String_of n \<noteq> []"
  by (simp add: String_of_def digits_not_empty)

text \<open>The text that is hashed starts with a number, so it is never empty.\<close>

lemma content_not_empty: "content idx ts tx prev n \<noteq> []"
  by (simp add: content_def String_of_not_empty)

lemma hash_crypto_content:
  "hash_crypto subtle (Some a) (Some (content idx ts tx prev n)) Hex =
     Inr (toHex (subtle a (content idx ts tx prev n)))"
  by (simp add: hash_crypto_def content_not_empty)

text \<open>Hence \<^verbatim>\<open>createBlock\<close> never fails, and this is the block it returns.\<close>

lemma createBlock_result:
  "createBlock subtle a idx ts tx prev nonce_arg =
     Inr \<lparr>index = idx, timestamp = ts, transaction = tx, previousHash = prev,
          hash = Some (toHex (subtle a
                   (content idx ts tx prev (case nonce_arg of None \<Rightarrow> 0 | Some v \<Rightarrow> v)))),
          nonce = (case nonce_arg of None \<Rightarrow> 0 | Some v \<Rightarrow> v), duration = 0\<rparr>"
  by (simp add: createBlock_def Let_def hash_crypto_content)

lemma createBlock_has_hash:
  "createBlock subtle algorithm idx ts tx prev n = Inr nb \<Longrightarrow> hash nb \<noteq> None"
  by (auto simp: createBlock_result)

lemma length_toHex: "length (toHex bytes) = 2 * length bytes"
  by (induction bytes) (simp_all add: toHex_def padStart_def toString16_def)

text \<open>
  Claim C9. \<^verbatim>\<open>hash(algorithm, data)\<close> fails with the error for missing parameters
  exactly when the algorithm is missing or the data is missing or empty; in every other
  case it returns a digest.
\<close>

theorem hash_crypto_fails_iff_missing:
  "((hash_crypto subtle algorithm data format = Inl InvalidInput) =
      (algorithm = None \<or> data = None \<or> data = Some [])) \<and>
   ((\<exists>h. hash_crypto subtle algorithm data format = Inr h) =
      (algorithm \<noteq> None \<and> data \<noteq> None \<and> data \<noteq> Some [])) \<and>
   (\<forall>e. hash_crypto subtle algorithm data format = Inl e \<longrightarrow> e = InvalidInput)"
  by (cases algorithm; cases data) (auto simp: hash_crypto_def Let_def)

theorem hash_crypto_fails_iff_missing_witness:
  "hash_crypto checksumPlatform None (Some ''abc'') Hex = Inl InvalidInput \<and>
   hash_crypto checksumPlatform (Some SHA256) None Hex = Inl InvalidInput \<and>
   hash_crypto checksumPlatform (Some SHA256) (Some []) Hex = Inl InvalidInput \<and>
   (\<exists>h. hash_crypto checksumPlatform (Some SHA256) (Some ''abc'') Hex = Inr h)"
  using hash_crypto_fails_iff_missing [of checksumPlatform None "Some ''abc''" Hex]
    hash_crypto_fails_iff_missing [of checksumPlatform "Some SHA256" None Hex]
    hash_crypto_fails_iff_missing [of checksumPlatform "Some SHA256" "Some []" Hex]
    hash_crypto_fails_iff_missing [of checksumPlatform "Some SHA256" "Some ''abc''" Hex]
  by simp

text \<open>
  Claim C1 says that the hash of a block made by \<^verbatim>\<open>createBlock\<close> is the digest of
  \<open>spec_content\<close>, the five fields written one after the other. The general fact about
  the code is \<open>createBlock_result\<close>: the hash is the digest of \<open>content\<close>, in which
  \<^verbatim>\<open>index + timestamp\<close> is a sum of two numbers. With index 1 and timestamp 2 the code
  hashes the text 3a00 where the claim has 12a00, on every platform; and the block with
  index 2 and timestamp 1 gets the very same hash, so the hash does not tell the two
  blocks apart.
\<close>

theorem createBlock_hashes_sum_of_index_and_timestamp:
  "(\<exists>b. createBlock subtle algorithm 1 2 ''a'' (Some ''0'') None = Inr b \<and>
        hash b = Some (toHex (subtle algorithm ''3a00''))) \<and>
   spec_content 1 2 ''a'' (Some ''0'') 0 = ''12a00'' \<and>
   (\<exists>b c. createBlock subtle algorithm 1 2 ''a'' (Some ''0'') None = Inr b \<and>
        createBlock subtle algorithm 2 1 ''a'' (Some ''0'') None = Inr c \<and>
        index b \<noteq> index c \<and> timestamp b \<noteq> timestamp c \<and> hash b = hash c)"
proof -
  have c: "content 1 2 ''a'' (Some ''0'') 0 = ''3a00''"
    by code_simp
  have c': "content 2 1 ''a'' (Some ''0'') 0 = ''3a00''"
    by code_simp
  have s: "spec_content 1 2 ''a'' (Some ''0'') 0 = ''12a00''"
    by code_simp
  show ?thesis
    by (simp add: createBlock_result c c' s)
qed

text \<open>
  The same on the toy platform, where both digests can be computed: the hash of the
  block is not the digest of the text the claim names.
\<close>

lemma createBlock_hash_is_not_spec_digest:
  "createBlock checksumPlatform SHA1 1 2 ''a'' (Some ''0'') None =
     Inr \<lparr>index = 1, timestamp = 2, transaction = ''a'', previousHash = Some ''0'',
          hash = Some ''f4f8fc0004080c1014181c2024282c3034383c40'', nonce = 0, duration = 0\<rparr> \<and>
   toHex (checksumPlatform SHA1 (spec_content 1 2 ''a'' (Some ''0'') 0)) =
     ''24292e33383d42474c51565b60656a6f74797e83''"
proof -
  have c: "content 1 2 ''a'' (Some ''0'') 0 = ''3a00''"
    by code_simp
  have s: "spec_content 1 2 ''a'' (Some ''0'') 0 = ''12a00''"
    by code_simp
  have h: "toHex (checksumPlatform SHA1 ''3a00'') = ''f4f8fc0004080c1014181c2024282c3034383c40''"
    by code_simp
  have h': "toHex (checksumPlatform SHA1 ''12a00'') = ''24292e33383d42474c51565b60656a6f74797e83''"
    by code_simp
  show ?thesis
    by (simp add: createBlock_result c s h h')
qed

text \<open>
  What the validator recomputes is blind to the same exchange: a block whose index is
  raised and whose timestamp is lowered by the same amount keeps its digest.
\<close>

lemma digestOf_index_shift:
  "digestOf subtle algorithm (b\<lparr>index := index b + d, timestamp := timestamp b - d\<rparr>) =
     digestOf subtle algorithm b"
  by (simp add: digestOf_def content_def)

section \<open>The miner\<close>

lemma repeat_zero: "0 \<le> d \<Longrightarrow> repeat ''0'' d = Inr (replicate (nat d) (CHR ''0''))"
  by (simp add: repeat_def)

lemma startsWith_longer: "length s < length t \<Longrightarrow> \<not> startsWith s t"
  by (auto simp: startsWith_def dest: arg_cong[where f = length])

text \<open>One unfolding of the recursion: the test succeeds, or the search goes on.\<close>

lemma mineBlock_hit:
  "0 \<le> difficulty \<Longrightarrow> meets difficulty block \<Longrightarrow>
   mineBlock subtle block algorithm difficulty = Some (Inr block, 0)"
  by (subst mineBlock.simps) (auto simp: repeat_zero meets_def split: option.splits)

lemma mineBlock_miss:
  assumes "0 \<le> difficulty" "hash block \<noteq> None" "\<not> meets difficulty block"
    and "createBlock subtle algorithm (index block) (timestamp block) (transaction block)
           (previousHash block) (Some (nonce block + 1)) = Inr nb"
  shows "mineBlock subtle block algorithm difficulty =
           Option.bind (mineBlock subtle nb algorithm difficulty)
             (\<lambda>r. Some (fst r, Suc (snd r)))"
  using assms by (subst mineBlock.simps) (auto simp: repeat_zero meets_def split: option.splits)

text \<open>The candidates of the search from \<open>nb\<close> are those of the search from \<open>b\<close>, one later.\<close>

lemma candidate_shift:
  "createBlock subtle algorithm (index b) (timestamp b) (transaction b) (previousHash b)
      (Some (nonce b + 1)) = Inr nb \<Longrightarrow>
   candidate subtle algorithm nb k = candidate subtle algorithm b (Suc k)"
  by (induction k) simp_all

lemma candidate_fields:
  "\<exists>c. candidate subtle algorithm block k = Inr c \<and> index c = index block \<and>
     timestamp c = timestamp block \<and> transaction c = transaction block \<and>
     previousHash c = previousHash block \<and> nonce c = nonce block + int k \<and>
     (0 < k \<longrightarrow> hash c = Some (digestOf subtle algorithm c) \<and> duration c = 0)"
proof (induction k)
  case 0
  then show ?case by simp
next
  case (Suc k)
  then obtain c where c: "candidate subtle algorithm block k = Inr c" "index c = index block"
     "timestamp c = timestamp block" "transaction c = transaction block"
     "previousHash c = previousHash block" "nonce c = nonce block + int k" by blast
  show ?case
    by (simp add: c createBlock_result digestOf_def)
qed

text \<open>
  Total correctness of the search: when candidate \<open>k\<close> is the first that meets the
  difficulty, \<^verbatim>\<open>mineBlock\<close> returns it, after \<open>k\<close> digests.
\<close>

lemma mineBlock_first_hit:
  assumes "0 \<le> difficulty" "hash block \<noteq> None"
    and "candidate subtle algorithm block k = Inr c" "meets difficulty c"
    and "\<forall>m<k. \<not> hit subtle algorithm difficulty block m"
  shows "mineBlock subtle block algorithm difficulty = Some (Inr c, k)"
  using assms
proof (induction k arbitrary: block)
  case 0
  then show ?case by (simp add: mineBlock_hit)
next
  case (Suc k)
  obtain nb where nb: "createBlock subtle algorithm (index block) (timestamp block)
      (transaction block) (previousHash block) (Some (nonce block + 1)) = Inr nb"
    by (simp add: createBlock_result)
  have miss0: "\<not> meets difficulty block"
    using Suc.prems(5) by (auto simp: hit_def dest: spec[of _ 0])
  have shift: "\<And>m. candidate subtle algorithm nb m = candidate subtle algorithm block (Suc m)"
    by (rule candidate_shift[OF nb])
  have "mineBlock subtle nb algorithm difficulty = Some (Inr c, k)"
  proof (rule Suc.IH)
    show "0 \<le> difficulty" by fact
    show "hash nb \<noteq> None" by (rule createBlock_has_hash[OF nb])
    show "candidate subtle algorithm nb k = Inr c" using Suc.prems(3) by (simp only: shift)
    show "meets difficulty c" by fact
    show "\<forall>m<k. \<not> hit subtle algorithm difficulty nb m"
      using Suc.prems(5) by (auto simp only: hit_def shift)
  qed
  then show ?case
    by (simp add: mineBlock_miss[OF Suc.prems(1,2) miss0 nb])
qed

lemma first_hit_exists:
  assumes "hit subtle algorithm difficulty block k"
  shows "\<exists>n\<le>k. hit subtle algorithm difficulty block n \<and>
           (\<forall>m<n. \<not> hit subtle algorithm difficulty block m)"
proof -
  let ?n = "LEAST n. hit subtle algorithm difficulty block n"
  have "hit subtle algorithm difficulty block ?n" using assms by (rule LeastI)
  moreover have "?n \<le> k" using assms by (rule Least_le)
  moreover have "\<forall>m<?n. \<not> hit subtle algorithm difficulty block m"
    using not_less_Least by blast
  ultimately show ?thesis by blast
qed

lemma mineBlock_total:
  assumes "0 \<le> difficulty" "hash block \<noteq> None" "hit subtle algorithm difficulty block k"
  shows "\<exists>b n. mineBlock subtle block algorithm difficulty = Some (Inr b, n) \<and> n \<le> k \<and>
           candidate subtle algorithm block n = Inr b \<and> meets difficulty b \<and>
           (\<forall>m<n. \<not> hit subtle algorithm difficulty block m)"
proof -
  from first_hit_exists[OF assms(3)] obtain n where n: "n \<le> k"
    "hit subtle algorithm difficulty block n" "\<forall>m<n. \<not> hit subtle algorithm difficulty block m"
    by blast
  from n(2) obtain b where b: "candidate subtle algorithm block n = Inr b" "meets difficulty b"
    by (auto simp: hit_def split: sum.splits)
  have "mineBlock subtle block algorithm difficulty = Some (Inr b, n)"
    by (rule mineBlock_first_hit[OF assms(1,2) b n(3)])
  with n b show ?thesis by blast
qed

text \<open>
  Conversely a search that returns anything has a candidate that meets the difficulty;
  so a search without one never returns.
\<close>

lemma mineBlock_returns_hit:
  assumes "mineBlock subtle block algorithm difficulty = Some y"
  shows "0 \<le> difficulty \<and> hash block \<noteq> None \<longrightarrow>
           (\<exists>k. hit subtle algorithm difficulty block k)"
proof (rule mineBlock.raw_induct[where P = "\<lambda>subtle block algorithm difficulty y.
          0 \<le> difficulty \<and> hash block \<noteq> None \<longrightarrow> (\<exists>k. hit subtle algorithm difficulty block k)",
        OF _ assms])
  fix mb :: "platform \<Rightarrow> IBlock \<Rightarrow> SupportedAlgorithm \<Rightarrow> int \<Rightarrow> ((error + IBlock) \<times> nat) option"
    and subtle block algorithm difficulty and y :: "(error + IBlock) \<times> nat"
  assume IH: "\<And>subtle block algorithm difficulty y.
      mb subtle block algorithm difficulty = Some y \<Longrightarrow>
      0 \<le> difficulty \<and> hash block \<noteq> None \<longrightarrow> (\<exists>k. hit subtle algorithm difficulty block k)"
  assume body: "(case repeat ''0'' difficulty of
        Inl e \<Rightarrow> Some (Inl e, 0)
      | Inr target \<Rightarrow>
          (case hash block of
             None \<Rightarrow> Some (Inl TypeError, 0)
           | Some h \<Rightarrow>
               if startsWith h target then Some (Inr block, 0)
               else
                 (case createBlock subtle algorithm (index block) (timestamp block)
                         (transaction block) (previousHash block) (Some (nonce block + 1)) of
                    Inl e \<Rightarrow> Some (Inl e, 1)
                  | Inr newBlock \<Rightarrow>
                      Option.bind (mb subtle newBlock algorithm difficulty)
                        (\<lambda>r. Some (fst r, Suc (snd r)))))) = Some y"
  obtain nb where nb: "createBlock subtle algorithm (index block) (timestamp block)
      (transaction block) (previousHash block) (Some (nonce block + 1)) = Inr nb"
    by (simp add: createBlock_result)
  show "0 \<le> difficulty \<and> hash block \<noteq> None \<longrightarrow> (\<exists>k. hit subtle algorithm difficulty block k)"
  proof (intro impI, elim conjE)
    assume d: "0 \<le> difficulty" and h: "hash block \<noteq> None"
    show "\<exists>k. hit subtle algorithm difficulty block k"
    proof (cases "meets difficulty block")
      case True
      then have "hit subtle algorithm difficulty block 0" by (simp add: hit_def)
      then show ?thesis ..
    next
      case False
      with body d h nb obtain y' where "mb subtle nb algorithm difficulty = Some y'"
        by (auto simp: repeat_zero meets_def split: option.splits if_splits Option.bind_splits)
      from IH[OF this] d createBlock_has_hash[OF nb]
      obtain k where "hit subtle algorithm difficulty nb k" by blast
      then have "hit subtle algorithm difficulty block (Suc k)"
        by (simp only: hit_def candidate_shift[OF nb])
      then show ?thesis ..
    qed
  qed
qed

lemma mineBlock_never_returns:
  assumes "0 \<le> difficulty" "hash block \<noteq> None"
    and "\<forall>k. \<not> hit subtle algorithm difficulty block k"
  shows "mineBlock subtle block algorithm difficulty = None"
proof (cases "mineBlock subtle block algorithm difficulty")
  case None
  then show ?thesis .
next
  case (Some y)
  from mineBlock_returns_hit[OF this] assms show ?thesis by blast
qed

text \<open>
  No hash of a platform whose digests have at most \<open>w\<close> bytes starts with more than
  \<open>2 * w\<close> zeros: beyond the width of the digest the search never returns.
\<close>

lemma mineBlock_beyond_width:
  assumes w: "\<forall>s. length (subtle algorithm s) \<le> w"
    and d: "2 * int w < difficulty"
    and h: "hash block = Some h" "length h \<le> 2 * w"
  shows "mineBlock subtle block algorithm difficulty = None"
proof (rule mineBlock_never_returns)
  show "0 \<le> difficulty" using d by simp
  show "hash block \<noteq> None" using h by simp
  show "\<forall>k. \<not> hit subtle algorithm difficulty block k"
  proof
    fix k
    obtain c where c: "candidate subtle algorithm block k = Inr c"
      "0 < k \<longrightarrow> hash c = Some (digestOf subtle algorithm c) \<and> duration c = 0"
      using candidate_fields[of subtle algorithm block k] by blast
    have "\<exists>g. hash c = Some g \<and> length g \<le> 2 * w"
    proof (cases k)
      case 0
      with c h show ?thesis by simp
    next
      case (Suc k')
      with c w show ?thesis by (simp add: digestOf_def length_toHex)
    qed
    then obtain g where g: "hash c = Some g" "length g \<le> 2 * w" by blast
    have "\<not> startsWith g (replicate (nat difficulty) (CHR ''0''))"
      by (rule startsWith_longer) (use g d in simp)
    then show "\<not> hit subtle algorithm difficulty block k"
      by (simp add: hit_def c(1) meets_def g(1))
  qed
qed


text \<open>The search from \<open>template1\<close> at difficulty 1, evaluated: two misses, then a hit.\<close>

lemma template1_candidate_1:
  "candidate checksumPlatform SHA1 template1 (Suc 0) =
     Inr \<lparr>index = 1, timestamp = 2000, transaction = ''carol pays eve 49'',
          previousHash = Some ''001326394c5f728598abbed1e4f70a1d30435669'',
          hash = Some ''ff3d7bb9f73573b1ef2d6ba9e72563a1df1d5b99'', nonce = 1,
          duration = 0\<rparr>"
  by code_simp

lemma template1_candidate_2:
  "candidate checksumPlatform SHA1 template1 2 =
     Inr \<lparr>index = 1, timestamp = 2000, transaction = ''carol pays eve 49'',
          previousHash = Some ''001326394c5f728598abbed1e4f70a1d30435669'',
          hash = Some ''003e7cbaf83674b2f02e6caae82664a2e01e5c9a'', nonce = 2,
          duration = 0\<rparr>"
proof -
  have "createBlock checksumPlatform SHA1 1 2000 ''carol pays eve 49''
          (Some ''001326394c5f728598abbed1e4f70a1d30435669'') (Some (1 + 1)) =
        Inr \<lparr>index = 1, timestamp = 2000, transaction = ''carol pays eve 49'',
          previousHash = Some ''001326394c5f728598abbed1e4f70a1d30435669'',
          hash = Some ''003e7cbaf83674b2f02e6caae82664a2e01e5c9a'', nonce = 2,
          duration = 0\<rparr>"
    by code_simp
  moreover have "candidate checksumPlatform SHA1 template1 (Suc (Suc 0)) =
      createBlock checksumPlatform SHA1 1 2000 ''carol pays eve 49''
        (Some ''001326394c5f728598abbed1e4f70a1d30435669'') (Some (1 + 1))"
    by (subst candidate.simps(2)) (simp add: template1_candidate_1 del: candidate.simps)
  ultimately show ?thesis
    by (simp only: numeral_2_eq_2)
qed

lemma template1_miss_0: "\<not> hit checksumPlatform SHA1 1 template1 0"
  by code_simp

lemma template1_miss_1: "\<not> hit checksumPlatform SHA1 1 template1 (Suc 0)"
  unfolding hit_def template1_candidate_1 by code_simp

lemma template1_hit_2: "hit checksumPlatform SHA1 1 template1 2"
  unfolding hit_def template1_candidate_2 by code_simp

lemma template1_mined:
  "mineBlock checksumPlatform template1 SHA1 1 =
     Some (Inr \<lparr>index = 1, timestamp = 2000, transaction = ''carol pays eve 49'',
              previousHash = Some ''001326394c5f728598abbed1e4f70a1d30435669'',
              hash = Some ''003e7cbaf83674b2f02e6caae82664a2e01e5c9a'', nonce = 2,
              duration = 0\<rparr>, 2)"
proof (rule mineBlock_first_hit)
  show "(0::int) \<le> 1" by simp
  show "hash template1 \<noteq> None" by (simp add: template1_def)
  show "candidate checksumPlatform SHA1 template1 2 =
      Inr \<lparr>index = 1, timestamp = 2000, transaction = ''carol pays eve 49'',
           previousHash = Some ''001326394c5f728598abbed1e4f70a1d30435669'',
           hash = Some ''003e7cbaf83674b2f02e6caae82664a2e01e5c9a'', nonce = 2,
           duration = 0\<rparr>"
    by (rule template1_candidate_2)
  show "meets 1 \<lparr>index = 1, timestamp = 2000, transaction = ''carol pays eve 49'',
           previousHash = Some ''001326394c5f728598abbed1e4f70a1d30435669'',
           hash = Some ''003e7cbaf83674b2f02e6caae82664a2e01e5c9a'', nonce = 2,
           duration = 0\<rparr>"
    by code_simp
  show "\<forall>m<2. \<not> hit checksumPlatform SHA1 1 template1 m"
    using template1_miss_0 template1_miss_1 by (auto simp: less_2_cases_iff)
qed

text \<open>The same search at difficulty 41, one more than a SHA-1 hash has digits.\<close>

lemma template1_never_mined: "mineBlock checksumPlatform template1 SHA1 41 = None"
proof (rule mineBlock_beyond_width[where w = 20])
  show "\<forall>s. length (checksumPlatform SHA1 s) \<le> 20"
    by (simp add: checksumPlatform_def width_def)
  show "2 * int 20 < 41" by simp
  show "hash template1 = Some ''fe3c7ab8f63472b0ee2c6aa8e62462a0de1c5a98''"
    by (simp add: template1_def)
  show "length ''fe3c7ab8f63472b0ee2c6aa8e62462a0de1c5a98'' \<le> 2 * 20" by simp
qed

text \<open>
  Claim C7. With difficulty 0 \<^verbatim>\<open>mineBlock\<close> returns the block it is given, as it is and
  without computing a digest: the target is the empty string, which every hash starts
  with, so the first test succeeds and no candidate is built. The block carries a hash,
  as the source asserts with \<^verbatim>\<open>block.hash!\<close>.
\<close>

theorem mineBlock_difficulty_zero:
  "hash block \<noteq> None \<Longrightarrow> mineBlock subtle block algorithm 0 = Some (Inr block, 0)"
  by (subst mineBlock.simps) (auto simp: repeat_def startsWith_def)

theorem mineBlock_difficulty_zero_witness:
  "hash template1 \<noteq> None \<and> mineBlock checksumPlatform template1 SHA1 0 = Some (Inr template1, 0)"
proof -
  have h: "hash template1 \<noteq> None" by (simp add: template1_def)
  show ?thesis using h mineBlock_difficulty_zero [OF h] by simp
qed

text \<open>
  Claim C10. \<^verbatim>\<open>mineBlock\<close> tests the hash the block carries and never recomputes it:
  a block whose stored hash starts with \<open>difficulty\<close> zeros is returned as it is, with no
  digest computed, whatever the digest of its content is.
\<close>

theorem mineBlock_trusts_stored_hash:
  "0 \<le> difficulty \<Longrightarrow> meets difficulty block \<Longrightarrow>
   mineBlock subtle block algorithm difficulty = Some (Inr block, 0)"
  by (rule mineBlock_hit)

theorem mineBlock_trusts_stored_hash_witness:
  "(0::int) \<le> 2 \<and> meets 2 staleBlock \<and>
   hash staleBlock \<noteq> Some (digestOf checksumPlatform SHA1 staleBlock) \<and>
   \<not> meets 2 \<lparr>index = 1, timestamp = 2000, transaction = ''carol pays eve 49'',
       previousHash = Some ''001326394c5f728598abbed1e4f70a1d30435669'',
       hash = Some (digestOf checksumPlatform SHA1 staleBlock), nonce = 0, duration = 0\<rparr> \<and>
   mineBlock checksumPlatform staleBlock SHA1 2 = Some (Inr staleBlock, 0)"
proof -
  have d: "(0::int) \<le> 2" by simp
  have m: "meets 2 staleBlock" by code_simp
  have g: "digestOf checksumPlatform SHA1 staleBlock = ''fe3c7ab8f63472b0ee2c6aa8e62462a0de1c5a98''"
    by code_simp
  have s: "hash staleBlock \<noteq> Some (digestOf checksumPlatform SHA1 staleBlock)"
    unfolding g by (simp add: staleBlock_def)
  have n: "\<not> meets 2 \<lparr>index = 1, timestamp = 2000, transaction = ''carol pays eve 49'',
       previousHash = Some ''001326394c5f728598abbed1e4f70a1d30435669'',
       hash = Some (digestOf checksumPlatform SHA1 staleBlock), nonce = 0, duration = 0\<rparr>"
    unfolding g by code_simp
  show ?thesis using d m s n mineBlock_trusts_stored_hash [OF d m] by simp
qed

text \<open>
  The genesis template carries the empty string as its hash, and nothing computes its
  digest: at difficulty 0 the genesis block is the template itself, with an empty hash.
\<close>

lemma createGenesisBlock_difficulty_zero:
  "createGenesisBlock subtle algorithm 0 now elapsed =
     Some (Inr \<lparr>index = 0, timestamp = now, transaction = ''Genesis Block'',
              previousHash = Some ''0'', hash = Some [], nonce = 0, duration = elapsed\<rparr>, 0)"
  by (simp add: createGenesisBlock_def mineBlock_hit meets_def startsWith_def)






section \<open>Chain assembly\<close>

text \<open>
  Claim C4. On an empty chain \<^verbatim>\<open>addBlock\<close> fails and returns no chain: reading the
  index of the last block, which does not exist, throws before any digest is computed.
  The source has no error of its own for the condition the specification calls
  EmptyChain; the failure is the \<open>TypeError\<close> of the runtime.
\<close>

theorem addBlock_empty_chain_fails:
  "addBlock subtle [] tx algorithm difficulty now elapsed = Some (Inl TypeError, 0)"
  by (simp add: addBlock_def)

lemma template1_created:
  "createBlock checksumPlatform SHA1 (index (last [genesis1]) + 1) 2000 ''carol pays eve 49''
     (hash (last [genesis1])) None = Inr template1"
  by code_simp

text \<open>
  Claim C5 says that \<^verbatim>\<open>addBlock\<close> returns the extended chain for every chain that is
  not empty. It returns when the search for the new block does: at difficulty 41 with
  SHA-1 the search never ends, and \<^verbatim>\<open>addBlock\<close> returns nothing.
\<close>

theorem addBlock_returns_nothing_beyond_width:
  "[genesis1] \<noteq> [] \<and>
   addBlock checksumPlatform [genesis1] ''carol pays eve 49'' SHA1 41 2000 7 = None"
  using template1_created by (simp add: addBlock_def Let_def template1_never_mined)

text \<open>
  Claim C5, amended. On a chain that is not empty, \<^verbatim>\<open>addBlock\<close> builds the template
  on the last block and mines it; where the difficulty is not negative and the search
  has a candidate that meets it, \<^verbatim>\<open>addBlock\<close> returns the chain it was given with
  exactly one block after it, the block \<^verbatim>\<open>mineBlock\<close> returned, stamped with the
  duration. In the store the result is a new array at a new address, and every array
  that was there before, the argument among them, is what it was.
\<close>

theorem addBlock_appends_one_mined_block:
  assumes "chain \<noteq> []" "0 \<le> difficulty"
    and "createBlock subtle algorithm (index (last chain) + 1) now tx (hash (last chain)) None =
           Inr templateBlock"
    and "hit subtle algorithm difficulty templateBlock k"
    and "r < length s" "s ! r = chain"
  shows "\<exists>minedBlock n r' s'.
           mineBlock subtle templateBlock algorithm difficulty = Some (Inr minedBlock, n) \<and>
           meets difficulty minedBlock \<and>
           addBlock subtle chain tx algorithm difficulty now elapsed =
             Some (Inr (chain @ [minedBlock\<lparr>duration := elapsed\<rparr>]), Suc n) \<and>
           addBlock_ref subtle s r tx algorithm difficulty now elapsed =
             Some ((Inr r', Suc n), s') \<and>
           r' \<noteq> r \<and> s' ! r' = chain @ [minedBlock\<lparr>duration := elapsed\<rparr>] \<and>
           s' ! r = chain \<and> (\<forall>a<length s. s' ! a = s ! a)"
proof -
  have last: "chain ! (length chain - Suc 0) = last chain"
    using assms(1) by (simp add: last_conv_nth)
  have "hash templateBlock \<noteq> None"
    by (rule createBlock_has_hash[OF assms(3)])
  from mineBlock_total[OF assms(2) this assms(4)] obtain b n where
    b: "mineBlock subtle templateBlock algorithm difficulty = Some (Inr b, n)"
       "meets difficulty b"
    by blast
  have add: "addBlock subtle chain tx algorithm difficulty now elapsed =
      Some (Inr (chain @ [b\<lparr>duration := elapsed\<rparr>]), Suc n)"
    using assms(1,3) b(1) by (simp add: addBlock_def Let_def last)
  have ref: "addBlock_ref subtle s r tx algorithm difficulty now elapsed =
      Some ((Inr (length s), Suc n), s @ [chain @ [b\<lparr>duration := elapsed\<rparr>]])"
    using add assms(6) by (simp add: addBlock_ref_def)
  have "length s \<noteq> r" using assms(5) by simp
  moreover have "(s @ [chain @ [b\<lparr>duration := elapsed\<rparr>]]) ! length s =
      chain @ [b\<lparr>duration := elapsed\<rparr>]"
    by simp
  moreover have "(s @ [chain @ [b\<lparr>duration := elapsed\<rparr>]]) ! r = chain"
    using assms(5,6) by (simp add: nth_append)
  moreover have "\<forall>a<length s. (s @ [chain @ [b\<lparr>duration := elapsed\<rparr>]]) ! a = s ! a"
    by (simp add: nth_append)
  ultimately show ?thesis using b add ref by blast
qed

theorem addBlock_appends_one_mined_block_witness:
  "[genesis1] \<noteq> [] \<and> (0::int) \<le> 1 \<and>
   createBlock checksumPlatform SHA1 (index (last [genesis1]) + 1) 2000 ''carol pays eve 49''
     (hash (last [genesis1])) None = Inr template1 \<and>
   hit checksumPlatform SHA1 1 template1 2 \<and>
   (0::nat) < length [[genesis1]] \<and> [[genesis1]] ! 0 = [genesis1] \<and>
   addBlock checksumPlatform [genesis1] ''carol pays eve 49'' SHA1 1 2000 7 =
     Some (Inr [genesis1, block1], 3) \<and>
   addBlock_ref checksumPlatform [[genesis1]] 0 ''carol pays eve 49'' SHA1 1 2000 7 =
     Some ((Inr 1, 3), [[genesis1], [genesis1, block1]])"
proof -
  have a: "[genesis1] \<noteq> []" by simp
  have d: "(0::int) \<le> 1" by simp
  have r: "(0::nat) < length [[genesis1]]" by simp
  have s: "[[genesis1]] ! 0 = [genesis1]" by simp
  from addBlock_appends_one_mined_block [OF a d template1_created template1_hit_2 r s, of 7]
  obtain minedBlock n r' s' where
    m: "mineBlock checksumPlatform template1 SHA1 1 = Some (Inr minedBlock, n)"
       "addBlock checksumPlatform [genesis1] ''carol pays eve 49'' SHA1 1 2000 7 =
          Some (Inr ([genesis1] @ [minedBlock\<lparr>duration := 7\<rparr>]), Suc n)"
       "addBlock_ref checksumPlatform [[genesis1]] 0 ''carol pays eve 49'' SHA1 1 2000 7 =
          Some ((Inr r', Suc n), s')"
       "s' ! r' = [genesis1] @ [minedBlock\<lparr>duration := 7\<rparr>]"
    by blast
  have mined: "minedBlock\<lparr>duration := 7\<rparr> = block1" "n = 2"
    using m(1) by (auto simp: template1_mined block1_def)
  have add: "addBlock checksumPlatform [genesis1] ''carol pays eve 49'' SHA1 1 2000 7 =
      Some (Inr [genesis1, block1], 3)"
    using m(2) mined by simp
  then have "addBlock_ref checksumPlatform [[genesis1]] 0 ''carol pays eve 49'' SHA1 1 2000 7 =
      Some ((Inr 1, 3), [[genesis1], [genesis1, block1]])"
    by (simp add: addBlock_ref_def)
  with a d template1_created template1_hit_2 r s add show ?thesis by simp
qed

section \<open>The chain validator\<close>

text \<open>
  The loop in closed form. The invariant ties \<open>isBroken\<close> to the checks of the
  positions already visited; the loop never fails, since the text it hashes is never
  empty.
\<close>

lemma validateLoop_closed:
  assumes "1 \<le> i" "i \<le> length chain"
    and "isBroken = (\<not> list_all (passes subtle algorithm chain) [1..<i])"
  shows "validateLoop subtle algorithm chain i isBroken report calls =
           (Inr (report @ map (verdict subtle algorithm chain) [i..<length chain]),
            calls + length (filter (digested subtle algorithm chain) [i..<length chain]))"
  using assms
proof (induction "length chain - i" arbitrary: i isBroken report calls)
  case 0
  then have "i = length chain" by simp
  then show ?case by (subst validateLoop.simps) simp
next
  case (Suc d)
  then have lt: "i < length chain" by simp
  have range: "[i..<length chain] = i # [Suc i..<length chain]"
    using lt by (simp add: upt_conv_Cons)
  have all_Suc: "list_all (passes subtle algorithm chain) [1..<Suc i] =
      (list_all (passes subtle algorithm chain) [1..<i] \<and> passes subtle algorithm chain i)"
    using Suc.prems(1) by (auto simp: list_all_iff)
  have IH: "\<And>b r c. b = (\<not> list_all (passes subtle algorithm chain) [1..<Suc i]) \<Longrightarrow>
      validateLoop subtle algorithm chain (Suc i) b r c =
        (Inr (r @ map (verdict subtle algorithm chain) [Suc i..<length chain]),
         c + length (filter (digested subtle algorithm chain) [Suc i..<length chain]))"
    using Suc.hyps(1)[of "Suc i"] Suc.hyps(2) lt by simp
  show ?case
  proof (cases isBroken)
    case True
    then have nb: "\<not> list_all (passes subtle algorithm chain) [1..<i]"
      using Suc.prems(3) by simp
    show ?thesis
      apply (subst validateLoop.simps)
      using lt True nb Suc.prems(1)
      apply (simp add: Let_def IH all_Suc range verdict_def digested_def)
      done
  next
    case False
    then have ok: "list_all (passes subtle algorithm chain) [1..<i]"
      using Suc.prems(3) by simp
    show ?thesis
      apply (subst validateLoop.simps)
      using lt False ok Suc.prems(1)
      apply (simp add: Let_def hash_crypto_content IH all_Suc range verdict_def digested_def
          passes_def hashIntact_def linked_def digestOf_def)
      done
  qed
qed

lemma validateChain_closed:
  assumes "chain \<noteq> []"
  shows "validateChain subtle algorithm chain =
     (Inr (map (verdict subtle algorithm chain) [0..<length chain]),
      length (filter (digested subtle algorithm chain) [1..<length chain]))"
proof -
  have len: "1 \<le> length chain" using assms by (cases chain) simp_all
  have first: "[\<lparr>blockId = index (chain ! 0), ok = True\<rparr>] = [verdict subtle algorithm chain 0]"
    by (simp add: verdict_def)
  have range: "[0..<length chain] = 0 # [1..<length chain]"
    using assms upt_conv_Cons[of 0 "length chain"] by simp
  have "validateChain subtle algorithm chain =
      validateLoop subtle algorithm chain 1 False [verdict subtle algorithm chain 0] 0"
    using assms by (simp add: validateChain_def first)
  also have "\<dots> = (Inr ([verdict subtle algorithm chain 0] @
        map (verdict subtle algorithm chain) [1..<length chain]),
      0 + length (filter (digested subtle algorithm chain) [1..<length chain]))"
    by (rule validateLoop_closed) (use len in simp_all)
  finally show ?thesis by (simp add: range)
qed

text \<open>
  Claim C6. The first entry of the report of a chain that is not empty is the index of
  the first block with \<open>ok\<close> true, whatever that block holds; the report of the empty
  chain is empty, and it is a report, not an error.
\<close>

theorem validateChain_genesis_always_ok:
  "validateChain subtle algorithm [] = (Inr [], 0) \<and>
   (chain \<noteq> [] \<longrightarrow>
      (\<exists>report calls. validateChain subtle algorithm chain = (Inr report, calls) \<and>
         length report = length chain \<and>
         report ! 0 = \<lparr>blockId = index (chain ! 0), ok = True\<rparr>))"
proof (intro conjI impI)
  show "validateChain subtle algorithm [] = (Inr [], 0)"
    by (simp add: validateChain_def)
next
  assume ne: "chain \<noteq> []"
  then have "0 < length chain" by simp
  then have "map (verdict subtle algorithm chain) [0..<length chain] ! 0 =
      \<lparr>blockId = index (chain ! 0), ok = True\<rparr>"
    by (simp add: verdict_def del: upt_Suc)
  then show "\<exists>report calls. validateChain subtle algorithm chain = (Inr report, calls) \<and>
      length report = length chain \<and>
      report ! 0 = \<lparr>blockId = index (chain ! 0), ok = True\<rparr>"
    by (simp add: validateChain_closed[OF ne])
qed

theorem validateChain_genesis_always_ok_witness:
  "[staleBlock, block2] \<noteq> [] \<and>
   hash staleBlock \<noteq> Some (digestOf checksumPlatform SHA1 staleBlock) \<and>
   (\<exists>report calls. validateChain checksumPlatform SHA1 [staleBlock, block2] = (Inr report, calls) \<and>
      length report = 2 \<and> report ! 0 = \<lparr>blockId = 1, ok = True\<rparr>)"
proof -
  have g: "digestOf checksumPlatform SHA1 staleBlock = ''fe3c7ab8f63472b0ee2c6aa8e62462a0de1c5a98''"
    by code_simp
  have s: "hash staleBlock \<noteq> Some (digestOf checksumPlatform SHA1 staleBlock)"
    unfolding g by (simp add: staleBlock_def)
  have ne: "[staleBlock, block2] \<noteq> []" by simp
  from validateChain_genesis_always_ok [of checksumPlatform SHA1 "[staleBlock, block2]"] ne
  obtain report calls where
    r: "validateChain checksumPlatform SHA1 [staleBlock, block2] = (Inr report, calls)"
       "length report = length [staleBlock, block2]"
       "report ! 0 = \<lparr>blockId = index ([staleBlock, block2] ! 0), ok = True\<rparr>"
    by blast
  from r(2,3) have "length report = 2" "report ! 0 = \<lparr>blockId = 1, ok = True\<rparr>"
    by (simp_all add: staleBlock_def)
  with r(1) ne s show ?thesis by blast
qed

text \<open>What a failed check at position \<open>k\<close> does to the verdicts and to the digests.\<close>

lemma verdict_after_failure:
  "1 \<le> k \<Longrightarrow> k \<le> j \<Longrightarrow> \<not> passes subtle algorithm chain k \<Longrightarrow>
   verdict subtle algorithm chain j = \<lparr>blockId = index (chain ! j), ok = False\<rparr>"
proof -
  assume "1 \<le> k" "k \<le> j" "\<not> passes subtle algorithm chain k"
  moreover from this have "k \<in> set [1..<Suc j]" by auto
  ultimately have "\<not> list_all (passes subtle algorithm chain) [1..<Suc j]"
    unfolding list_all_iff by blast
  then show ?thesis by (simp only: verdict_def)
qed

lemma digested_after_failure:
  "1 \<le> k \<Longrightarrow> k < j \<Longrightarrow> \<not> passes subtle algorithm chain k \<Longrightarrow>
   \<not> digested subtle algorithm chain j"
  by (auto simp: digested_def list_all_iff)

lemma passes_before_update:
  "m < k \<Longrightarrow> passes subtle algorithm (chain[k := b]) m = passes subtle algorithm chain m"
  by (simp add: passes_def hashIntact_def linked_def)

lemma verdict_before_update:
  assumes "j < k"
  shows "verdict subtle algorithm (chain[k := b]) j = verdict subtle algorithm chain j"
proof -
  have "list_all (passes subtle algorithm (chain[k := b])) [1..<Suc j] =
      list_all (passes subtle algorithm chain) [1..<Suc j]"
    unfolding list_all_iff using assms by (auto simp: passes_before_update)
  then show ?thesis using assms by (simp add: verdict_def)
qed

lemma passes_take:
  "m \<le> k \<Longrightarrow> passes subtle algorithm (take (Suc k) chain) m = passes subtle algorithm chain m"
  by (simp add: passes_def hashIntact_def linked_def)

lemma digests_stop_at_failure:
  assumes "1 \<le> k" "k < length chain" "\<not> passes subtle algorithm chain k"
  shows "filter (digested subtle algorithm chain) [1..<length chain] =
           filter (digested subtle algorithm chain) [1..<Suc k]"
proof -
  obtain d where d: "length chain = Suc k + d"
    using assms(2) less_iff_Suc_add[of k "length chain"] by auto
  have split: "[1..<length chain] = [1..<Suc k] @ [Suc k..<length chain]"
    unfolding d by (rule upt_add_eq_append) simp
  have "filter (digested subtle algorithm chain) [Suc k..<length chain] = []"
    using assms(1,3) digested_after_failure[of k _ subtle algorithm chain]
    by (auto simp: filter_empty_conv)
  then show ?thesis by (simp only: split filter_append append_Nil2)
qed

lemma digests_of_prefix:
  "filter (digested subtle algorithm (take (Suc k) chain)) [1..<Suc k] =
     filter (digested subtle algorithm chain) [1..<Suc k]"
proof (rule filter_cong[OF refl])
  fix j
  assume "j \<in> set [1..<Suc k]"
  then have "j \<le> k" by auto
  then have "list_all (passes subtle algorithm (take (Suc k) chain)) [1..<j] =
      list_all (passes subtle algorithm chain) [1..<j]"
    unfolding list_all_iff by (auto simp: passes_take)
  then show "digested subtle algorithm (take (Suc k) chain) j = digested subtle algorithm chain j"
    by (simp add: digested_def)
qed

text \<open>
  Claim C2. Let the block at position \<open>k \<ge> 1\<close> fail the hash check or the link
  check. Then the report has \<open>ok\<close> false at every position from \<open>k\<close> on; the run
  computes at most \<open>k\<close> digests, as many as the validation of the chain cut after
  position \<open>k\<close>, so that no position after \<open>k\<close> costs a digest; and the entries before
  \<open>k\<close> are what they are with any other block at position \<open>k\<close>, one that passes among
  them.
\<close>

theorem validateChain_cascade:
  assumes "1 \<le> k" "k < length chain"
    and "\<not> hashIntact subtle algorithm chain k \<or> \<not> linked chain k"
  shows "\<exists>report calls.
           validateChain subtle algorithm chain = (Inr report, calls) \<and>
           length report = length chain \<and>
           (\<forall>j. k \<le> j \<and> j < length chain \<longrightarrow>
                report ! j = \<lparr>blockId = index (chain ! j), ok = False\<rparr>) \<and>
           calls \<le> k \<and>
           snd (validateChain subtle algorithm (take (Suc k) chain)) = calls \<and>
           (\<forall>b. \<exists>report' calls'.
                validateChain subtle algorithm (chain[k := b]) = (Inr report', calls') \<and>
                (\<forall>j<k. report' ! j = report ! j))"
proof -
  let ?report = "map (verdict subtle algorithm chain) [0..<length chain]"
  let ?calls = "length (filter (digested subtle algorithm chain) [1..<length chain])"
  have ne: "chain \<noteq> []" using assms(2) by auto
  have fails: "\<not> passes subtle algorithm chain k"
    using assms(3) by (auto simp: passes_def)
  have run: "validateChain subtle algorithm chain = (Inr ?report, ?calls)"
    by (rule validateChain_closed[OF ne])
  have len: "length ?report = length chain" by simp
  have after: "\<forall>j. k \<le> j \<and> j < length chain \<longrightarrow>
      ?report ! j = \<lparr>blockId = index (chain ! j), ok = False\<rparr>"
    using assms(1) fails by (simp add: verdict_after_failure del: upt_Suc)
  have calls: "?calls = length (filter (digested subtle algorithm chain) [1..<Suc k])"
    by (simp only: digests_stop_at_failure[OF assms(1,2) fails])
  have "length (filter (digested subtle algorithm chain) [1..<Suc k]) \<le> k"
    using length_filter_le[of "digested subtle algorithm chain" "[1..<Suc k]"]
    by (simp del: upt_Suc)
  then have bound: "?calls \<le> k" by (simp only: calls)
  have cut: "snd (validateChain subtle algorithm (take (Suc k) chain)) = ?calls"
  proof -
    have tne: "take (Suc k) chain \<noteq> []" using ne by (cases chain) simp_all
    have tlen: "length (take (Suc k) chain) = Suc k" using assms(2) by simp
    have "snd (validateChain subtle algorithm (take (Suc k) chain)) =
        length (filter (digested subtle algorithm (take (Suc k) chain))
          [1..<length (take (Suc k) chain)])"
      by (simp only: validateChain_closed[OF tne] snd_conv)
    then show ?thesis
      by (simp only: tlen digests_of_prefix calls)
  qed
  have before: "\<exists>report' calls'.
      validateChain subtle algorithm (chain[k := b]) = (Inr report', calls') \<and>
      (\<forall>j<k. report' ! j = ?report ! j)" for b
  proof -
    have "chain[k := b] \<noteq> []" using ne by simp
    then have "validateChain subtle algorithm (chain[k := b]) =
        (Inr (map (verdict subtle algorithm (chain[k := b])) [0..<length (chain[k := b])]),
         length (filter (digested subtle algorithm (chain[k := b])) [1..<length (chain[k := b])]))"
      by (rule validateChain_closed)
    moreover have "\<forall>j<k. map (verdict subtle algorithm (chain[k := b]))
        [0..<length (chain[k := b])] ! j = ?report ! j"
      using assms(2) by (simp add: verdict_before_update del: upt_Suc)
    ultimately show ?thesis by blast
  qed
  from run len after bound cut before show ?thesis by blast
qed

text \<open>
  The chain of three blocks, and the same chain after the transaction of its second
  block has been overwritten.
\<close>

lemma validateChain_sound_chain:
  "validateChain checksumPlatform SHA1 [genesis1, block1, block2] =
     (Inr [\<lparr>blockId = 0, ok = True\<rparr>, \<lparr>blockId = 1, ok = True\<rparr>, \<lparr>blockId = 2, ok = True\<rparr>], 2)"
  by code_simp

lemma tampered_fails_hash_check:
  "\<not> hashIntact checksumPlatform SHA1
       [genesis1, block1\<lparr>transaction := ''Oops! I broke this one''\<rparr>, block2] 1"
  by code_simp

theorem validateChain_cascade_witness:
  "(1::nat) \<le> 1 \<and>
   1 < length [genesis1, block1\<lparr>transaction := ''Oops! I broke this one''\<rparr>, block2] \<and>
   \<not> hashIntact checksumPlatform SHA1
       [genesis1, block1\<lparr>transaction := ''Oops! I broke this one''\<rparr>, block2] 1 \<and>
   linked [genesis1, block1\<lparr>transaction := ''Oops! I broke this one''\<rparr>, block2] 2 \<and>
   hashIntact checksumPlatform SHA1
       [genesis1, block1\<lparr>transaction := ''Oops! I broke this one''\<rparr>, block2] 2 \<and>
   (\<exists>report calls.
      validateChain checksumPlatform SHA1
        [genesis1, block1\<lparr>transaction := ''Oops! I broke this one''\<rparr>, block2] =
        (Inr report, calls) \<and>
      length report = 3 \<and> report ! 1 = \<lparr>blockId = 1, ok = False\<rparr> \<and>
      report ! 2 = \<lparr>blockId = 2, ok = False\<rparr> \<and> calls \<le> 1)"
proof -
  let ?chain = "[genesis1, block1\<lparr>transaction := ''Oops! I broke this one''\<rparr>, block2]"
  have k: "(1::nat) \<le> 1" by simp
  have l: "1 < length ?chain" by simp
  have f: "\<not> hashIntact checksumPlatform SHA1 ?chain 1 \<or> \<not> linked ?chain 1"
    using tampered_fails_hash_check by simp
  have l2: "linked ?chain 2" by code_simp
  have h2: "hashIntact checksumPlatform SHA1 ?chain 2" by code_simp
  from validateChain_cascade [OF k l f] obtain report calls where
    r: "validateChain checksumPlatform SHA1 ?chain = (Inr report, calls)"
       "length report = length ?chain"
       "\<forall>j. 1 \<le> j \<and> j < length ?chain \<longrightarrow>
          report ! j = \<lparr>blockId = index (?chain ! j), ok = False\<rparr>"
       "calls \<le> 1"
    by blast
  from r(3) have "report ! 1 = \<lparr>blockId = index (?chain ! 1), ok = False\<rparr>"
    "report ! 2 = \<lparr>blockId = index (?chain ! 2), ok = False\<rparr>"
    by simp_all
  then have "report ! 1 = \<lparr>blockId = 1, ok = False\<rparr>" "report ! 2 = \<lparr>blockId = 2, ok = False\<rparr>"
    by (simp_all add: block1_def block2_def)
  moreover have "length report = 3" using r(2) by simp
  ultimately show ?thesis using k l tampered_fails_hash_check l2 h2 r(1,4) by blast
qed

end
